theory Spec2Isabelle
  imports Main
begin

chapter \<open>The model\<close>

section \<open>JavaScript strings\<close>

text \<open>
  A JavaScript string is the list of its code units. The model takes the code units
  below 256 (the Latin-1 range), which is what \<^typ>\<open>char\<close> holds, so \<^const>\<open>length\<close>
  is the \<^verbatim>\<open>.length\<close> of the source.
\<close>

text \<open>
  \<^verbatim>\<open>s.substring(a, b)\<close>: both indices are clamped to \<open>0 .. s.length\<close> and swapped
  when the first is the larger one.
\<close>

definition js_substring :: "string \<Rightarrow> int \<Rightarrow> int \<Rightarrow> string" where
  "js_substring s a b =
     (let n = int (length s);
          a' = min (max a 0) n;
          b' = min (max b 0) n;
          lo = min a' b';
          hi = max a' b'
      in take (nat (hi - lo)) (drop (nat lo) s))"

text \<open>
  An exception: the name of its constructor and its message, so that
  \<^verbatim>\<open>new Error('m')\<close> is \<open>Exn ''Error'' ''m''\<close>. A function that can throw returns
  \<open>js_error + 'a\<close>, \<open>Inl\<close> the exception thrown.
\<close>

datatype js_error = Exn string string

text \<open>
  White space as \<^verbatim>\<open>\s\<close> and \<^verbatim>\<open>trim\<close> take it, below 256: tab, line feed, vertical
  tab, form feed, carriage return, space and the no-break space.
\<close>

definition js_whitespace :: "char \<Rightarrow> bool" where
  "js_whitespace c = (of_char c \<in> {9, 10, 11, 12, 13, 32, 160 :: nat})"

definition js_trim :: "string \<Rightarrow> string" where
  "js_trim s = rev (dropWhile js_whitespace (rev (dropWhile js_whitespace s)))"

text \<open>
  \<^verbatim>\<open>toLowerCase\<close> below 256: the letters A to Z and the accented capitals
  (\<open>0xC0\<close> to \<open>0xDE\<close> without the multiplication sign \<open>0xD7\<close>) move up by 32.
\<close>

definition js_toLowerCase_char :: "char \<Rightarrow> char" where
  "js_toLowerCase_char c =
     (let n = (of_char c :: nat)
      in if (65 \<le> n \<and> n \<le> 90) \<or> (192 \<le> n \<and> n \<le> 222 \<and> n \<noteq> 215)
         then char_of (n + 32) else c)"

definition js_toLowerCase :: "string \<Rightarrow> string" where
  "js_toLowerCase s = map js_toLowerCase_char s"

text \<open>
  \<^verbatim>\<open>s.split(/\s+/)\<close>: the pieces between the maximal runs of white space, empty
  pieces at the ends included (\<^verbatim>\<open>' a'.split(/\s+/)\<close> is \<^verbatim>\<open>['', 'a']\<close>). The result is
  never empty, so the last case is never taken.
\<close>

function (sequential) js_split_ws :: "string \<Rightarrow> string list" where
  "js_split_ws [] = [[]]"
| "js_split_ws (c # cs) =
     (if js_whitespace c then [] # js_split_ws (dropWhile js_whitespace cs)
      else (case js_split_ws cs of
              w # ws \<Rightarrow> (c # w) # ws
            | [] \<Rightarrow> [[c]]))"
  by pat_completeness auto
termination
  by (relation "measure length") (auto intro: le_imp_less_Suc length_dropWhile_le)

text \<open>\<^verbatim>\<open>s.startsWith(w)\<close> and \<^verbatim>\<open>s.includes(w)\<close>.\<close>

definition starts_with :: "string \<Rightarrow> string \<Rightarrow> bool" where
  "starts_with s w = (take (length w) s = w)"

fun js_includes :: "string \<Rightarrow> string \<Rightarrow> bool" where
  "js_includes [] w = (w = [])"
| "js_includes (c # cs) w = (starts_with (c # cs) w \<or> js_includes cs w)"

text \<open>\<^verbatim>\<open>xs.join(sep)\<close> on an array of strings.\<close>

fun js_join :: "string \<Rightarrow> string list \<Rightarrow> string" where
  "js_join sep [] = []"
| "js_join sep [x] = x"
| "js_join sep (x # y # ys) = x @ sep @ js_join sep (y # ys)"

text \<open>The decimal digits of a non-negative integer, as string concatenation writes it.\<close>

function decimal :: "nat \<Rightarrow> string" where
  "decimal n =
     (if n < 10 then [char_of (48 + n)]
      else decimal (n div 10) @ [char_of (48 + n mod 10)])"
  by pat_completeness auto
termination
  by (relation "measure id") auto

declare decimal.simps [simp del]

section \<open>chunkText (utils/fileHandlers.js)\<close>

text \<open>The four sentence breaks the loop looks for: \<^verbatim>\<open>['. ', '? ', '! ', '\n\n']\<close>.\<close>

definition potentialBreaks :: "string list" where
  "potentialBreaks = [''. '', ''? '', ''! '', [CHR 0x0A, CHR 0x0A]]"

text \<open>
  The inner \<^verbatim>\<open>for (const breakChar of potentialBreaks)\<close>: some break string ends
  at position \<open>i\<close>.
\<close>

definition break_at :: "string \<Rightarrow> int \<Rightarrow> bool" where
  "break_at text i =
     list_ex (\<lambda>breakChar. js_substring text (i - int (length breakChar)) i = breakChar)
       potentialBreaks"

text \<open>
  The outer \<^verbatim>\<open>for (let i = endIndex; i >= minBreakPosition; i--)\<close>: the largest
  \<open>i\<close> in the window at which a break ends, if any (\<open>breakFound\<close>).
\<close>

function find_break :: "string \<Rightarrow> int \<Rightarrow> int \<Rightarrow> int option" where
  "find_break text minBreakPosition i =
     (if i < minBreakPosition then None
      else if break_at text i then Some i
      else find_break text minBreakPosition (i - 1))"
  by pat_completeness auto
termination
  by (relation "measure (\<lambda>(text, minBreakPosition, i). nat (i + 1 - minBreakPosition))") auto

declare find_break.simps [simp del]

text \<open>
  The \<^verbatim>\<open>while (startIndex < text.length)\<close> loop. The state is \<open>startIndex\<close> and the
  \<open>chunks\<close> pushed so far; \<open>breakWindow\<close> is the value of \<^verbatim>\<open>maxChunkSize * 0.8\<close>
  (an integer for the default size). The loop need not end, so its result is an option:
  \<open>None\<close> is a loop that never leaves.
\<close>

partial_function (option) chunkText_loop ::
  "string \<Rightarrow> int \<Rightarrow> int \<Rightarrow> int \<Rightarrow> int \<Rightarrow> string list \<Rightarrow> string list option" where
  "chunkText_loop text maxChunkSize breakWindow chunkOverlap startIndex chunks =
     (if startIndex < int (length text) then
        (let endIndex0 = min (startIndex + maxChunkSize) (int (length text));
             endIndex =
               (if endIndex0 < int (length text) then
                  (case find_break text (max (startIndex + breakWindow) startIndex) endIndex0 of
                     Some i \<Rightarrow> i
                   | None \<Rightarrow> endIndex0)
                else endIndex0)
         in chunkText_loop text maxChunkSize breakWindow chunkOverlap
              (endIndex - chunkOverlap)
              (chunks @ [js_substring text startIndex endIndex]))
      else Some chunks)"

definition chunkText_with :: "string \<Rightarrow> int \<Rightarrow> int \<Rightarrow> int \<Rightarrow> string list option" where
  "chunkText_with text maxChunkSize breakWindow chunkOverlap =
     (if text = [] then Some []
      else chunkText_loop text maxChunkSize breakWindow chunkOverlap 0 [])"

text \<open>
  \<^verbatim>\<open>chunkText(text)\<close> with the default parameters \<open>maxChunkSize = 1500\<close> and
  \<open>chunkOverlap = 100\<close>; \<open>1500 * 0.8\<close> is \<open>1200\<close>.
\<close>

definition chunkText :: "string \<Rightarrow> string list option" where
  "chunkText text = chunkText_with text 1500 1200 100"

section \<open>generateSummary (utils/fileHandlers.js)\<close>

text \<open>The characters of the class \<^verbatim>\<open>[\.!\?]\<close>.\<close>

definition is_terminator :: "char \<Rightarrow> bool" where
  "is_terminator c = (c = CHR ''.'' \<or> c = CHR ''!'' \<or> c = CHR ''?'')"

text \<open>
  \<^verbatim>\<open>text.match(/[^\.!\?]+[\.!\?]+/g) || []\<close>: the matches from left to right. A match
  cannot start at a terminator; from any other character it takes the longest run of
  non-terminators and then the longest run of terminators, and there is none when the
  text ends before a terminator comes. The search goes on behind the match.
\<close>

function match_sentences :: "string \<Rightarrow> string list" where
  "match_sentences s =
     (let rest = dropWhile is_terminator s;
          body = takeWhile (\<lambda>c. \<not> is_terminator c) rest;
          after = dropWhile (\<lambda>c. \<not> is_terminator c) rest;
          marks = takeWhile is_terminator after
      in if marks = [] then []
         else (body @ marks) # match_sentences (dropWhile is_terminator after))"
  by pat_completeness auto
termination
proof (relation "measure length", goal_cases)
  case 1
  show ?case by simp
next
  case (2 s rest body after marks)
  from 2(4,5) have "after \<noteq> []" by auto
  moreover from 2(4,5) have "is_terminator (hd after)"
    by (cases after) (auto split: if_splits)
  ultimately have "length (dropWhile is_terminator after) < length after"
    by (cases after) (auto intro: le_imp_less_Suc length_dropWhile_le)
  also have "length after \<le> length rest" unfolding 2(3) by (rule length_dropWhile_le)
  also have "length rest \<le> length s" unfolding 2(1) by (rule length_dropWhile_le)
  finally show ?case by simp
qed

declare match_sentences.simps [simp del]

text \<open>
  The \<^verbatim>\<open>for (const sentence of sentences)\<close> loop, with its \<open>break\<close>; the state is
  \<open>summary\<close> and \<open>currentLength\<close>.
\<close>

fun summary_loop :: "string list \<Rightarrow> int \<Rightarrow> string \<Rightarrow> int \<Rightarrow> string" where
  "summary_loop [] maxLength summary currentLength = summary"
| "summary_loop (sentence # rest) maxLength summary currentLength =
     (if currentLength + int (length sentence) \<le> maxLength
      then summary_loop rest maxLength (summary @ sentence) (currentLength + int (length sentence))
      else summary)"

definition generateSummary :: "string \<Rightarrow> int \<Rightarrow> string" where
  "generateSummary text maxLength = summary_loop (match_sentences text) maxLength [] 0"

text \<open>The first \<open>k\<close> sentences together are at most \<open>maxLength\<close> characters long.\<close>

definition fits :: "string list \<Rightarrow> int \<Rightarrow> nat \<Rightarrow> bool" where
  "fits sentences maxLength k = (int (length (concat (take k sentences))) \<le> maxLength)"

section \<open>findRelevantPassages (utils/fileHandlers.js)\<close>

subsection \<open>The regular expressions built from query words\<close>

text \<open>
  \<^verbatim>\<open>new RegExp(word, 'gi')\<close> is used in one way only, \<^verbatim>\<open>chunkLower.match(regex)\<close>,
  of which the code takes the number of matches (none when the result is \<open>null\<close>). A
  compiled expression is modelled by that number, as a function of the string searched.
\<close>

type_synonym regexp = "string \<Rightarrow> nat"

text \<open>The syntax characters of a pattern other than the two parentheses.\<close>

definition other_syntax_chars :: "char list" where
  "other_syntax_chars =
     [CHR ''^'', CHR ''$'', CHR 0x5C, CHR ''.'', CHR ''*'', CHR ''+'', CHR ''?'',
      CHR ''['', CHR '']'', CHR ''{'', CHR ''}'', CHR ''|'']"

definition groups_only :: "string \<Rightarrow> bool" where
  "groups_only pattern = list_all (\<lambda>c. c \<notin> set other_syntax_chars) pattern"

text \<open>Every \<open>(\<close> is closed by a later \<open>)\<close> and every \<open>)\<close> closes an earlier \<open>(\<close>.\<close>

fun groups_closed :: "string \<Rightarrow> nat \<Rightarrow> bool" where
  "groups_closed [] depth = (depth = 0)"
| "groups_closed (c # cs) depth =
     (if c = CHR ''('' then groups_closed cs (Suc depth)
      else if c = CHR '')'' then 0 < depth \<and> groups_closed cs (depth - 1)
      else groups_closed cs depth)"

definition group_free :: "string \<Rightarrow> string" where
  "group_free pattern = filter (\<lambda>c. c \<noteq> CHR ''('' \<and> c \<noteq> CHR '')'') pattern"

text \<open>With the flag \<open>i\<close>, two characters below 256 match when they differ in case only.\<close>

definition starts_with_ci :: "string \<Rightarrow> string \<Rightarrow> bool" where
  "starts_with_ci s w = (js_toLowerCase (take (length w) s) = js_toLowerCase w)"

text \<open>
  The matches of a literal word under the flag \<open>g\<close>: the search goes from left to right
  and resumes behind each match; the empty word matches once at every position, the
  end of the string included.
\<close>

function count_matches :: "string \<Rightarrow> string \<Rightarrow> nat" where
  "count_matches w [] = (if w = [] then 1 else 0)"
| "count_matches w (c # cs) =
     (if w = [] then Suc (count_matches w cs)
      else if starts_with_ci (c # cs) w
      then Suc (count_matches w (drop (length w) (c # cs)))
      else count_matches w cs)"
  by pat_completeness auto
termination
  by (relation "measure (\<lambda>(w, s). length s)") (auto simp: Suc_diff_le)

text \<open>
  The constructor, as ECMAScript defines it on the patterns whose only syntax characters
  are parentheses: such a pattern is a sequence of characters and capturing groups. It
  is a syntax error unless the parentheses are balanced, and then it matches what the
  characters without the parentheses match. On every other pattern the constructor is
  the parameter \<open>other\<close>, about which nothing is assumed. The message of the syntax error
  depends on the engine.
\<close>

definition new_RegExp_gi ::
  "(string \<Rightarrow> js_error + regexp) \<Rightarrow> string \<Rightarrow> js_error + regexp" where
  "new_RegExp_gi other pattern =
     (if groups_only pattern then
        (if groups_closed pattern 0 then Inr (count_matches (group_free pattern))
         else Inl (Exn ''SyntaxError'' ''Invalid regular expression''))
      else other pattern)"

subsection \<open>Scoring\<close>

text \<open>An element of the result, \<^verbatim>\<open>{ text: chunk, score: score }\<close>.\<close>

record passage =
  passage_text :: string
  score :: nat

text \<open>
  The \<^verbatim>\<open>for (const word of queryWords)\<close> loop of one chunk; an exception of the
  constructor leaves the loop.
\<close>

fun score_words ::
  "(string \<Rightarrow> js_error + regexp) \<Rightarrow> string list \<Rightarrow> string \<Rightarrow> nat \<Rightarrow> js_error + nat" where
  "score_words other [] chunkLower sc = Inr sc"
| "score_words other (word # rest) chunkLower sc =
     (if 3 < length word then
        (case new_RegExp_gi other word of
           Inl e \<Rightarrow> Inl e
         | Inr regex \<Rightarrow> score_words other rest chunkLower (sc + regex chunkLower))
      else score_words other rest chunkLower sc)"

definition containsAllWords :: "string list \<Rightarrow> string \<Rightarrow> bool" where
  "containsAllWords queryWords chunkLower =
     list_all (\<lambda>word. js_includes chunkLower word)
       (filter (\<lambda>word. 3 < length word) queryWords)"

text \<open>The callback of \<^verbatim>\<open>textChunks.map\<close>.\<close>

definition score_chunk ::
  "(string \<Rightarrow> js_error + regexp) \<Rightarrow> string list \<Rightarrow> string \<Rightarrow> js_error + passage" where
  "score_chunk other queryWords chunk =
     (let chunkLower = js_toLowerCase chunk
      in case score_words other queryWords chunkLower 0 of
           Inl e \<Rightarrow> Inl e
         | Inr sc \<Rightarrow>
             Inr \<lparr>passage_text = chunk,
                  score = (if containsAllWords queryWords chunkLower then sc * 2 else sc)\<rparr>)"

text \<open>\<^verbatim>\<open>xs.map(f)\<close> for a callback that can throw: the first exception ends the map.\<close>

fun map_throwing :: "('a \<Rightarrow> js_error + 'b) \<Rightarrow> 'a list \<Rightarrow> js_error + 'b list" where
  "map_throwing f [] = Inr []"
| "map_throwing f (x # xs) =
     (case f x of
        Inl e \<Rightarrow> Inl e
      | Inr y \<Rightarrow> (case map_throwing f xs of Inl e \<Rightarrow> Inl e | Inr ys \<Rightarrow> Inr (y # ys)))"

text \<open>
  \<^verbatim>\<open>.sort((a, b) => b.score - a.score)\<close>: the sort is stable, so the result is the
  stable sort by descending score.
\<close>

definition sort_by_score_desc :: "passage list \<Rightarrow> passage list" where
  "sort_by_score_desc items = sort_key (\<lambda>item. - int (score item)) items"

definition findRelevantPassages ::
  "(string \<Rightarrow> js_error + regexp) \<Rightarrow> string \<Rightarrow> string list \<Rightarrow> js_error + passage list" where
  "findRelevantPassages other query textChunks =
     (let queryWords = js_split_ws (js_toLowerCase query)
      in case map_throwing (score_chunk other queryWords) textChunks of
           Inl e \<Rightarrow> Inl e
         | Inr items \<Rightarrow> Inr (sort_by_score_desc (filter (\<lambda>item. 0 < score item) items)))"

section \<open>extractPdfText (utils/fileHandlers.js)\<close>

text \<open>
  The PDF library is outside the repository. What \<open>extractPdfText\<close> uses of it is
  modelled by what each call gives: an awaited promise is its result, \<open>Inl\<close> the
  rejection. A page's text content is the list of the \<open>str\<close> of its items.
\<close>

record pdf_page =
  getTextContent :: "js_error + string list"

record pdf_document =
  numPages :: nat
  getPage :: "nat \<Rightarrow> js_error + pdf_page"
  getMetadata :: "js_error + (string \<times> string) list option"

record pdf_file =
  arrayBuffer :: "js_error + nat list"

text \<open>An element of \<open>pages\<close>, and the object returned.\<close>

record extracted_page =
  pageNumber :: nat
  pageText :: string

record extraction =
  result_text :: string
  result_pages :: "extracted_page list"
  result_metadata :: "(string \<times> string) list"
  result_numPages :: nat

text \<open>The calls of \<^verbatim>\<open>console.error(label, error)\<close>, oldest first.\<close>

type_synonym console = "(string \<times> js_error) list"

text \<open>
  The \<^verbatim>\<open>for (let i = 1; i <= numPages; i++)\<close> loop over the page numbers left to
  read; the first rejection ends it.
\<close>

fun read_pages :: "pdf_document \<Rightarrow> nat list \<Rightarrow> js_error + extracted_page list" where
  "read_pages pdf [] = Inr []"
| "read_pages pdf (i # rest) =
     (case getPage pdf i of
        Inl e \<Rightarrow> Inl e
      | Inr page \<Rightarrow>
          (case getTextContent page of
             Inl e \<Rightarrow> Inl e
           | Inr items \<Rightarrow>
               (case read_pages pdf rest of
                  Inl e \<Rightarrow> Inl e
                | Inr pages \<Rightarrow>
                    Inr (\<lparr>pageNumber = i, pageText = js_join '' '' items\<rparr> # pages))))"

text \<open>
  The body of the \<open>try\<close>. A rejection of \<open>getMetadata\<close> is caught on the spot and
  gives an object without \<open>info\<close>, which reads as \<open>{}\<close>.
\<close>

definition extractPdfText_try ::
  "(nat list \<Rightarrow> js_error + pdf_document) \<Rightarrow> pdf_file \<Rightarrow> js_error + extraction" where
  "extractPdfText_try getDocument file =
     (case arrayBuffer file of
        Inl e \<Rightarrow> Inl e
      | Inr data \<Rightarrow>
          (case getDocument data of
             Inl e \<Rightarrow> Inl e
           | Inr pdf \<Rightarrow>
               (let metadata = (case getMetadata pdf of Inl e \<Rightarrow> None | Inr m \<Rightarrow> m)
                in case read_pages pdf [1..<Suc (numPages pdf)] of
                     Inl e \<Rightarrow> Inl e
                   | Inr pages \<Rightarrow>
                       Inr \<lparr>result_text = js_join '' '' (map pageText pages),
                            result_pages = pages,
                            result_metadata = (case metadata of None \<Rightarrow> [] | Some info \<Rightarrow> info),
                            result_numPages = numPages pdf\<rparr>)))"

text \<open>The function: the \<open>catch\<close> logs the exception and throws a new one.\<close>

definition extractPdfText ::
  "(nat list \<Rightarrow> js_error + pdf_document) \<Rightarrow> pdf_file \<Rightarrow> console
     \<Rightarrow> console \<times> (js_error + extraction)" where
  "extractPdfText getDocument file console =
     (case extractPdfText_try getDocument file of
        Inl error \<Rightarrow>
          (console @ [(''Error extracting text from PDF:'', error)],
           Inl (Exn ''Error'' ''Failed to extract text from PDF''))
      | Inr result \<Rightarrow> (console, Inr result))"

subsection \<open>Pages that can be read\<close>

text \<open>The text of page \<open>i\<close>, when the page and its text content can be read.\<close>

definition page_text_of :: "pdf_document \<Rightarrow> nat \<Rightarrow> string option" where
  "page_text_of pdf i =
     (case getPage pdf i of
        Inl e \<Rightarrow> None
      | Inr page \<Rightarrow>
          (case getTextContent page of Inl e \<Rightarrow> None | Inr items \<Rightarrow> Some (js_join '' '' items)))"

text \<open>
  Extraction succeeds: the file's bytes can be read, the library loads them as a
  document, and each of its pages can be read.
\<close>

definition pdf_readable :: "(nat list \<Rightarrow> js_error + pdf_document) \<Rightarrow> pdf_file \<Rightarrow> bool" where
  "pdf_readable getDocument file =
     (case arrayBuffer file of
        Inl e \<Rightarrow> False
      | Inr data \<Rightarrow>
          (case getDocument data of
             Inl e \<Rightarrow> False
           | Inr pdf \<Rightarrow> list_all (\<lambda>i. page_text_of pdf i \<noteq> None) [1..<Suc (numPages pdf)]))"

section \<open>The uploader (components/Documents/DocumentUploader.jsx)\<close>

text \<open>What the uploader reads of a \<open>File\<close>: its \<open>name\<close>, \<open>type\<close> and \<open>size\<close>.\<close>

record file_obj =
  file_name :: string
  file_type :: string
  file_size :: nat

text \<open>
  Identifiers: a document's is a string, a chat message's is a number, and \<open>===\<close>
  never equates one with the other.
\<close>

datatype ident = NumId nat | StrId string

text \<open>The Document record; \<open>pages\<close> is \<open>null\<close> or a number.\<close>

record document =
  doc_id :: ident
  doc_name :: string
  doc_type :: string
  doc_size :: nat
  doc_uploadDate :: string
  doc_content :: string
  doc_pages :: "nat option"

text \<open>
  What one timer callback of \<open>handleFiles\<close> reads from outside: \<^verbatim>\<open>Date.now()\<close>,
  \<^verbatim>\<open>Math.random().toString(36).substr(2, 9)\<close>, \<^verbatim>\<open>new Date().toISOString()\<close> and
  \<^verbatim>\<open>Math.floor(Math.random() * 20)\<close>.
\<close>

record upload_env =
  date_now :: nat
  random_base36 :: string
  date_iso :: string
  random_pages :: nat

definition allowedFileTypes :: "string list" where
  "allowedFileTypes =
     [''application/pdf'',
      ''application/vnd.openxmlformats-officedocument.wordprocessingml.document'']"

text \<open>\<open>validateFileType\<close> of utils/fileHandlers.js, whose default list is the same.\<close>

definition validateFileType :: "file_obj \<Rightarrow> string list \<Rightarrow> bool" where
  "validateFileType file allowedTypes = (file_type file \<in> set allowedTypes)"

definition placeholder_content :: string where
  "placeholder_content =
     ''This is a placeholder for the actual document content. In a real application, this would be processed and stored by the backend.''"

text \<open>The \<open>newDocument\<close> a timer callback builds for one file.\<close>

definition newDocument :: "upload_env \<Rightarrow> file_obj \<Rightarrow> document" where
  "newDocument env file =
     \<lparr>doc_id = StrId (decimal (date_now env) @ random_base36 env),
      doc_name = file_name file,
      doc_type = file_type file,
      doc_size = file_size file,
      doc_uploadDate = date_iso env,
      doc_content = placeholder_content,
      doc_pages = (if file_type file = ''application/pdf''
                   then Some (random_pages env + 5) else None)\<rparr>"

text \<open>
  The state the uploader writes: the document list of the context, and its own
  \<open>uploadError\<close> and \<open>isUploading\<close>.
\<close>

record uploader_state =
  documents :: "document list"
  uploadError :: "string option"
  isUploading :: bool

text \<open>
  \<open>handleFiles\<close> up to its return: the new state, and the valid files for which an
  upload promise is pending (none after the early return).
\<close>

definition handleFiles_start ::
  "file_obj list \<Rightarrow> uploader_state \<Rightarrow> uploader_state \<times> file_obj list" where
  "handleFiles_start files st =
     (let st1 = st\<lparr>uploadError := None, isUploading := True\<rparr>;
          validFiles = filter (\<lambda>file. file_type file \<in> set allowedFileTypes) files
      in if length validFiles = 0
         then (st1\<lparr>uploadError := Some ''Only PDF and Word documents are supported.'',
                   isUploading := False\<rparr>, [])
         else (st1, validFiles))"

text \<open>
  The documents the promises resolve to, in the order of the files; \<open>env i\<close> is what
  the callback of the \<open>i\<close>-th valid file reads.
\<close>

definition uploadPromises :: "(nat \<Rightarrow> upload_env) \<Rightarrow> file_obj list \<Rightarrow> document list" where
  "uploadPromises env validFiles =
     map (\<lambda>(i, file). newDocument (env i) file) (enumerate 0 validFiles)"

text \<open>
  The \<open>then\<close> of \<^verbatim>\<open>Promise.all\<close>: \<open>documents0\<close> is the list \<open>handleFiles\<close> closed over
  when it was called. The promises never reject, so the \<open>catch\<close> is never run.
\<close>

definition handleFiles_then ::
  "(nat \<Rightarrow> upload_env) \<Rightarrow> document list \<Rightarrow> file_obj list \<Rightarrow> uploader_state
     \<Rightarrow> uploader_state" where
  "handleFiles_then env documents0 validFiles st =
     st\<lparr>documents := documents0 @ uploadPromises env validFiles, isUploading := False\<rparr>"

text \<open>One upload from the call to the resolution, nothing else happening in between.\<close>

definition handleFiles ::
  "(nat \<Rightarrow> upload_env) \<Rightarrow> file_obj list \<Rightarrow> uploader_state \<Rightarrow> uploader_state" where
  "handleFiles env files st =
     (case handleFiles_start files st of
        (st1, []) \<Rightarrow> st1
      | (st1, validFiles) \<Rightarrow> handleFiles_then env (documents st) validFiles st1)"

section \<open>The chat page (pages/Chat.jsx)\<close>

text \<open>The \<open>source\<close> of a bot message and the ChatMessage record.\<close>

record msg_source =
  source_document :: string
  source_page :: nat

record chat_message =
  msg_id :: ident
  msg_sender :: string
  msg_text :: string
  msg_timestamp :: nat
  msg_source :: "msg_source option"

text \<open>
  The state of the page: the \<open>messages\<close>, and the timers \<open>handleSendMessage\<close> has set
  that have not fired yet, oldest first. A timer's callback closes over the
  \<open>activeDocument\<close> of the render in which the message was sent. All delays are one
  second, so the timers fire in the order in which they were set.
\<close>

record chat_state =
  messages :: "chat_message list"
  timers :: "document option list"

text \<open>
  \<open>handleSendMessage(text)\<close> up to its return; \<open>now\<close> is \<^verbatim>\<open>Date.now()\<close> and
  \<open>date\<close> is \<^verbatim>\<open>new Date()\<close>. The guard is \<^verbatim>\<open>!text || !text.trim()\<close>.
\<close>

definition handleSendMessage ::
  "document option \<Rightarrow> string \<Rightarrow> nat \<Rightarrow> nat \<Rightarrow> chat_state \<Rightarrow> chat_state" where
  "handleSendMessage activeDocument text now date st =
     (if text = [] \<or> js_trim text = [] then st
      else
        (let userMessage =
               \<lparr>msg_id = NumId now, msg_sender = ''user'', msg_text = text,
                msg_timestamp = date, msg_source = None\<rparr>
         in st\<lparr>messages := messages st @ [userMessage],
               timers := timers st @ [activeDocument]\<rparr>))"

text \<open>
  The \<open>botResponse\<close> a timer callback builds; \<open>random_page\<close> is
  \<^verbatim>\<open>Math.floor(Math.random() * 5)\<close>.
\<close>

definition botResponse :: "document option \<Rightarrow> nat \<Rightarrow> nat \<Rightarrow> nat \<Rightarrow> chat_message" where
  "botResponse activeDocument now date random_page =
     \<lparr>msg_id = NumId (now + 1),
      msg_sender = ''bot'',
      msg_text =
        ''I'm analyzing your question about '' @
        (case activeDocument of Some d \<Rightarrow> doc_name d | None \<Rightarrow> ''your documents'') @
        ''. In a real implementation, this would be answered by the backend using RAG.'',
      msg_timestamp = date,
      msg_source =
        (case activeDocument of
           Some d \<Rightarrow> Some \<lparr>source_document = doc_name d, source_page = random_page + 1\<rparr>
         | None \<Rightarrow> None)\<rparr>"

text \<open>The oldest timer fires.\<close>

definition timer_fires :: "nat \<Rightarrow> nat \<Rightarrow> nat \<Rightarrow> chat_state \<Rightarrow> chat_state" where
  "timer_fires now date random_page st =
     (case timers st of
        [] \<Rightarrow> st
      | activeDocument # rest \<Rightarrow>
          st\<lparr>messages := messages st @ [botResponse activeDocument now date random_page],
             timers := rest\<rparr>)"

text \<open>The messages of the page when it is mounted at \<open>date\<close>.\<close>

definition initial_chat :: "nat \<Rightarrow> chat_state" where
  "initial_chat date =
     \<lparr>messages =
        [\<lparr>msg_id = NumId 1, msg_sender = ''bot'',
          msg_text = ''Hello! I'm your study assistant. Ask me questions about your documents and I'll help you understand them better.'',
          msg_timestamp = date, msg_source = None\<rparr>],
      timers = []\<rparr>"

text \<open>Two documents that differ in their content strings at most.\<close>

definition same_but_content :: "document \<Rightarrow> document \<Rightarrow> bool" where
  "same_but_content d d' =
     (doc_id d = doc_id d' \<and> doc_name d = doc_name d' \<and> doc_type d = doc_type d' \<and>
      doc_size d = doc_size d' \<and> doc_uploadDate d = doc_uploadDate d' \<and>
      doc_pages d = doc_pages d')"

chapter \<open>The properties\<close>

section \<open>chunkText (utils/fileHandlers.js)\<close>

subsection \<open>The loop never leaves\<close>

lemma find_break_le: "find_break s m i = Some j \<Longrightarrow> j \<le> i"
proof (induction s m i rule: find_break.induct)
  case (1 s m i)
  then show ?case
    by (subst (asm) (2) find_break.simps) (auto split: if_splits)
qed

text \<open>
  \<open>endIndex\<close> never exceeds \<open>text.length\<close>, so with a positive overlap the next
  \<open>startIndex\<close> is again below \<open>text.length\<close>: once the loop is entered, its
  condition holds on every later iteration. Fixpoint induction over the loop.
\<close>

lemma chunkText_loop_never_leaves:
  assumes ret: "chunkText_loop s m w ov start chunks = Some r"
  shows "\<not> (0 < ov \<and> start < int (length s))"
proof (rule chunkText_loop.raw_induct
    [where P = "\<lambda>s m w ov start chunks r. \<not> (0 < ov \<and> start < int (length s))", OF _ ret])
  fix loop :: "string \<Rightarrow> int \<Rightarrow> int \<Rightarrow> int \<Rightarrow> int \<Rightarrow> string list \<Rightarrow> string list option"
  fix s m w ov start chunks r
  assume IH: "\<And>s m w ov start chunks r. loop s m w ov start chunks = Some r
      \<Longrightarrow> \<not> (0 < ov \<and> start < int (length s))"
  assume body: "(if start < int (length s) then
        (let endIndex0 = min (start + m) (int (length s));
             endIndex =
               (if endIndex0 < int (length s) then
                  (case find_break s (max (start + w) start) endIndex0 of
                     Some i \<Rightarrow> i
                   | None \<Rightarrow> endIndex0)
                else endIndex0)
         in loop s m w ov (endIndex - ov) (chunks @ [js_substring s start endIndex]))
      else Some chunks) = Some r"
  show "\<not> (0 < ov \<and> start < int (length s))"
  proof
    assume a: "0 < ov \<and> start < int (length s)"
    define e0 where "e0 = min (start + m) (int (length s))"
    define e where "e = (if e0 < int (length s) then
        (case find_break s (max (start + w) start) e0 of Some i \<Rightarrow> i | None \<Rightarrow> e0) else e0)"
    have "e0 \<le> int (length s)" by (simp add: e0_def)
    moreover have "e \<le> e0"
      by (auto simp: e_def dest: find_break_le split: option.splits)
    ultimately have lt: "e - ov < int (length s)" using a by linarith
    from body a have "loop s m w ov (e - ov) (chunks @ [js_substring s start e]) = Some r"
      unfolding e_def e0_def Let_def by simp
    from IH[OF this] a lt show False by simp
  qed
qed

lemma chunkText_with_never_returns:
  assumes "s \<noteq> []" and "0 < chunkOverlap"
  shows "chunkText_with s maxChunkSize breakWindow chunkOverlap = None"
proof (rule ccontr)
  assume "chunkText_with s maxChunkSize breakWindow chunkOverlap \<noteq> None"
  with assms obtain r where "chunkText_loop s maxChunkSize breakWindow chunkOverlap 0 [] = Some r"
    by (auto simp: chunkText_with_def)
  from chunkText_loop_never_leaves[OF this] assms show False by simp
qed

text \<open>
  C1. The claim is that \<open>chunkText\<close> with the default parameters returns a finite list
  of chunks for every non-empty text, the start index advancing on every iteration. The
  code does the opposite: for every non-empty text the loop never ends. After the chunk
  that reaches the end of the text, \<open>startIndex\<close> becomes \<open>text.length - 100\<close>, which
  is below \<open>text.length\<close> again, and the same last chunk is pushed for ever.
\<close>

theorem chunkText_never_returns: "s \<noteq> [] \<Longrightarrow> chunkText s = None"
  unfolding chunkText_def by (rule chunkText_with_never_returns) simp_all

theorem chunkText_never_returns_witness: "''a'' \<noteq> [] \<and> chunkText ''a'' = None"
  using chunkText_never_returns [of "''a''"] by simp

section \<open>generateSummary (utils/fileHandlers.js)\<close>

subsection \<open>The summary is the longest prefix of sentences that fits\<close>

lemma summary_loop_prefix:
  "\<exists>k\<le>length ss.
     summary_loop ss m acc cur = acc @ concat (take k ss) \<and>
     (0 < k \<longrightarrow> cur + int (length (concat (take k ss))) \<le> m) \<and>
     (k < length ss \<longrightarrow> m < cur + int (length (concat (take (Suc k) ss))))"
proof (induction ss arbitrary: acc cur)
  case Nil
  show ?case by simp
next
  case (Cons x xs)
  show ?case
  proof (cases "cur + int (length x) \<le> m")
    case True
    from Cons.IH[of "acc @ x" "cur + int (length x)"]
    obtain k where k: "k \<le> length xs"
      "summary_loop xs m (acc @ x) (cur + int (length x)) = (acc @ x) @ concat (take k xs)"
      "0 < k \<longrightarrow> cur + int (length x) + int (length (concat (take k xs))) \<le> m"
      "k < length xs \<longrightarrow> m < cur + int (length x) + int (length (concat (take (Suc k) xs)))"
      by blast
    show ?thesis
    proof (intro exI[of _ "Suc k"] conjI)
      show "Suc k \<le> length (x # xs)" using k(1) by simp
      show "summary_loop (x # xs) m acc cur = acc @ concat (take (Suc k) (x # xs))"
        using True k(2) by simp
      show "0 < Suc k \<longrightarrow> cur + int (length (concat (take (Suc k) (x # xs)))) \<le> m"
        using True k(3) by (cases k) auto
      show "Suc k < length (x # xs) \<longrightarrow>
              m < cur + int (length (concat (take (Suc (Suc k)) (x # xs))))"
        using k(4) by (simp add: add.assoc)
    qed
  next
    case False
    then show ?thesis by (intro exI[of _ 0]) simp
  qed
qed

lemma length_concat_take_mono:
  "j \<le> k \<Longrightarrow> length (concat (take j ss)) \<le> length (concat (take k ss))"
proof (induction ss arbitrary: j k)
  case Nil
  show ?case by simp
next
  case (Cons x xs)
  show ?case
  proof (cases j)
    case 0
    then show ?thesis by simp
  next
    case (Suc j')
    with Cons.prems obtain k' where "k = Suc k'" "j' \<le> k'" by (cases k) auto
    with Suc Cons.IH[of j' k'] show ?thesis by simp
  qed
qed

text \<open>
  C10. The claim: for every text and every \<open>maxLength\<close> the result is at most
  \<open>maxLength\<close> long and is the longest prefix of whole sentences that fits, the empty
  string if the first sentence alone is too long. The length bound fails for a negative
  \<open>maxLength\<close>, where the result is the empty string, of length 0.
\<close>

theorem generateSummary_negative_maxLength:
  "\<not> int (length (generateSummary ''Hi.'' (- 1))) \<le> - 1"
  by code_simp

text \<open>
  C10, amended: whatever \<open>maxLength\<close> is, the result is the concatenation of the first
  \<open>k\<close> sentences, no longer prefix of the sentences fits, and the result is empty when
  the first sentence alone does not fit; when \<open>maxLength\<close> is not negative, the prefix
  fits and the result is at most \<open>maxLength\<close> long.
\<close>

theorem generateSummary_longest_prefix:
  "\<exists>k\<le>length (match_sentences t).
     generateSummary t maxLength = concat (take k (match_sentences t)) \<and>
     (\<forall>j\<le>length (match_sentences t). fits (match_sentences t) maxLength j \<longrightarrow> j \<le> k) \<and>
     (\<not> fits (match_sentences t) maxLength 1 \<longrightarrow> generateSummary t maxLength = []) \<and>
     (0 \<le> maxLength \<longrightarrow>
        fits (match_sentences t) maxLength k \<and>
        int (length (generateSummary t maxLength)) \<le> maxLength)"
proof -
  define ss where "ss = match_sentences t"
  from summary_loop_prefix[of ss maxLength "[]" 0]
  obtain k where k: "k \<le> length ss"
    "summary_loop ss maxLength [] 0 = concat (take k ss)"
    "0 < k \<longrightarrow> int (length (concat (take k ss))) \<le> maxLength"
    "k < length ss \<longrightarrow> maxLength < int (length (concat (take (Suc k) ss)))"
    by auto
  have res: "generateSummary t maxLength = concat (take k ss)"
    using k(2) by (simp add: generateSummary_def ss_def)
  have longest: "j \<le> k" if "j \<le> length ss" "fits ss maxLength j" for j
  proof (rule ccontr)
    assume "\<not> j \<le> k"
    then have "Suc k \<le> j" by simp
    from length_concat_take_mono[OF this, of ss] that k(4) \<open>Suc k \<le> j\<close>
    show False by (auto simp: fits_def)
  qed
  have first: "generateSummary t maxLength = []" if "\<not> fits ss maxLength 1"
  proof (cases k)
    case 0
    with res show ?thesis by simp
  next
    case (Suc k')
    with k(3) have "int (length (concat (take k ss))) \<le> maxLength" by simp
    moreover have "length (concat (take 1 ss)) \<le> length (concat (take k ss))"
      using Suc by (intro length_concat_take_mono) simp
    ultimately have "fits ss maxLength 1" by (simp add: fits_def)
    with that show ?thesis by simp
  qed
  have fit: "fits ss maxLength k" if "0 \<le> maxLength"
    using k(3) that by (cases k) (auto simp: fits_def)
  have bound: "int (length (generateSummary t maxLength)) \<le> maxLength" if "0 \<le> maxLength"
    using fit[OF that] res by (simp add: fits_def)
  from k(1) res longest first fit bound show ?thesis
    unfolding ss_def by blast
qed

lemma match_sentences_Hi: "match_sentences ''Hi. Ok.'' = [''Hi.'', '' Ok.'']"
  by code_simp

theorem generateSummary_longest_prefix_witness:
  "generateSummary ''Hi. Ok.'' 5 = ''Hi.'' \<and> (0::int) \<le> 5"
  using generateSummary_longest_prefix [of "''Hi. Ok.''" 5]
  by (simp add: generateSummary_def match_sentences_Hi)

section \<open>findRelevantPassages (utils/fileHandlers.js)\<close>

subsection \<open>What a returned list satisfies, and when a list is returned\<close>

lemma map_throwing_source:
  "map_throwing f xs = Inr ys \<Longrightarrow> y \<in> set ys \<Longrightarrow> \<exists>x\<in>set xs. f x = Inr y"
  by (induction xs arbitrary: ys) (auto split: sum.splits)

lemma map_throwing_returns:
  "(\<And>x. x \<in> set xs \<Longrightarrow> \<exists>y. f x = Inr y) \<Longrightarrow> \<exists>ys. map_throwing f xs = Inr ys"
proof (induction xs)
  case Nil
  show ?case by simp
next
  case (Cons x xs)
  from Cons.prems[of x] obtain y where "f x = Inr y" by auto
  moreover from Cons obtain ys where "map_throwing f xs = Inr ys" by auto
  ultimately show ?case by simp
qed

lemma score_words_returns:
  "(\<And>w. w \<in> set ws \<Longrightarrow> 3 < length w \<Longrightarrow> \<exists>r. new_RegExp_gi other w = Inr r)
     \<Longrightarrow> \<exists>n. score_words other ws chunkLower sc = Inr n"
proof (induction ws arbitrary: sc)
  case Nil
  show ?case by simp
next
  case (Cons w ws)
  show ?case
  proof (cases "3 < length w")
    case True
    with Cons.prems[of w] obtain r where "new_RegExp_gi other w = Inr r" by auto
    with True Cons.IH[of "sc + r chunkLower"] Cons.prems show ?thesis by auto
  next
    case False
    with Cons.IH[of sc] Cons.prems show ?thesis by auto
  qed
qed

lemma score_chunk_text:
  "score_chunk other queryWords chunk = Inr p \<Longrightarrow> passage_text p = chunk"
  by (auto simp: score_chunk_def Let_def split: sum.splits)

text \<open>
  Whenever a list is returned, each element is the scored passage of one of the input
  chunks, its score is positive, and the scores do not increase along the list.
\<close>

lemma findRelevantPassages_result:
  assumes "findRelevantPassages other query textChunks = Inr res"
  shows "(\<forall>p\<in>set res. passage_text p \<in> set textChunks \<and> 0 < score p \<and>
            score_chunk other (js_split_ws (js_toLowerCase query)) (passage_text p) = Inr p) \<and>
         sorted_wrt (\<lambda>a b. score b \<le> score a) res"
proof -
  define qw where "qw = js_split_ws (js_toLowerCase query)"
  from assms obtain items where
    items: "map_throwing (score_chunk other qw) textChunks = Inr items" and
    res: "res = sort_by_score_desc (filter (\<lambda>item. 0 < score item) items)"
    by (auto simp: findRelevantPassages_def Let_def qw_def split: sum.splits)
  from map_throwing_source[OF items]
  have each: "\<forall>p\<in>set items. \<exists>c\<in>set textChunks. score_chunk other qw c = Inr p"
    by blast
  have "passage_text p \<in> set textChunks \<and> 0 < score p \<and>
          score_chunk other qw (passage_text p) = Inr p" if "p \<in> set res" for p
  proof -
    from that res have "p \<in> set items" "0 < score p"
      by (auto simp: sort_by_score_desc_def)
    with each obtain c where c: "c \<in> set textChunks" "score_chunk other qw c = Inr p" by auto
    from score_chunk_text[OF c(2)] c \<open>0 < score p\<close> show ?thesis by simp
  qed
  moreover have "sorted (map (\<lambda>item. - int (score item)) res)"
    unfolding res sort_by_score_desc_def by (rule sorted_sort_key)
  then have "sorted_wrt (\<lambda>a b. score b \<le> score a) res"
    by (simp add: sorted_wrt_map)
  ultimately show ?thesis unfolding qw_def by blast
qed

text \<open>A list is returned when the constructor accepts every query word longer than 3.\<close>

lemma findRelevantPassages_returns:
  assumes "\<And>w. w \<in> set (js_split_ws (js_toLowerCase query)) \<Longrightarrow> 3 < length w
             \<Longrightarrow> \<exists>r. new_RegExp_gi other w = Inr r"
  shows "\<exists>res. findRelevantPassages other query textChunks = Inr res"
proof -
  define qw where "qw = js_split_ws (js_toLowerCase query)"
  have "\<exists>p. score_chunk other qw c = Inr p" for c
    using score_words_returns[of qw other "js_toLowerCase c" 0] assms
    by (auto simp: score_chunk_def Let_def qw_def)
  from map_throwing_returns[of textChunks "score_chunk other qw", OF this]
  show ?thesis by (auto simp: findRelevantPassages_def Let_def qw_def)
qed

lemma new_RegExp_gi_open_group:
  "new_RegExp_gi other ''(see'' = Inl (Exn ''SyntaxError'' ''Invalid regular expression'')"
  by (simp add: new_RegExp_gi_def groups_only_def other_syntax_chars_def)

text \<open>
  C6. The claim: for every query and every list of chunks a list is returned whose
  elements are input chunks with positive scores in non-increasing order. That holds of
  every list the function returns (\<open>findRelevantPassages_result\<close>), but for some queries
  none is returned: the query below has the word \<open>(see\<close>, which the code passes to the
  RegExp constructor as it is, and the constructor throws.
\<close>

theorem findRelevantPassages_no_list:
  "findRelevantPassages other ''explain recursion (see chapter 2)''
     [''Recursion is when a function calls itself.''] =
   Inl (Exn ''SyntaxError'' ''Invalid regular expression'')"
  by code_simp

text \<open>
  C9. The claim: \<open>findRelevantPassages\<close> never throws, because building a regular
  expression from a query word never fails, whatever metacharacters the word has. The
  code does not escape the word: for the query \<open>(see\<close> and any chunk at all, the
  constructor's syntax error leaves the function.
\<close>

theorem findRelevantPassages_throws:
  "textChunks \<noteq> [] \<Longrightarrow>
   findRelevantPassages other ''(see'' textChunks =
   Inl (Exn ''SyntaxError'' ''Invalid regular expression'')"
proof -
  assume "textChunks \<noteq> []"
  then obtain c cs where tc: "textChunks = c # cs" by (cases textChunks) auto
  have qw: "js_split_ws (js_toLowerCase ''(see'') = [''(see'']" by code_simp
  have "score_chunk other [''(see''] c = Inl (Exn ''SyntaxError'' ''Invalid regular expression'')"
    by (simp add: score_chunk_def new_RegExp_gi_open_group)
  then show ?thesis
    by (simp add: findRelevantPassages_def qw tc)
qed

theorem findRelevantPassages_throws_witness:
  "[''see page 2''] \<noteq> [] \<and>
   findRelevantPassages (\<lambda>pattern. Inr (\<lambda>s. 0)) ''(see'' [''see page 2''] =
   Inl (Exn ''SyntaxError'' ''Invalid regular expression'')"
  using findRelevantPassages_throws [of "[''see page 2'']" "\<lambda>pattern. Inr (\<lambda>s. 0)"] by simp

section \<open>extractPdfText (utils/fileHandlers.js)\<close>

lemma page_text_of_read:
  "getPage pdf i = Inr page \<Longrightarrow> getTextContent page = Inr items \<Longrightarrow>
     page_text_of pdf i = Some (js_join '' '' items)"
  by (simp add: page_text_of_def)

lemma page_text_of_no_page: "getPage pdf i = Inl e \<Longrightarrow> page_text_of pdf i = None"
  by (simp add: page_text_of_def)

lemma page_text_of_no_content:
  "getPage pdf i = Inr page \<Longrightarrow> getTextContent page = Inl e \<Longrightarrow> page_text_of pdf i = None"
  by (simp add: page_text_of_def)

lemmas page_text_of_simps = page_text_of_read page_text_of_no_page page_text_of_no_content

lemma read_pages_Inr:
  "read_pages pdf ns = Inr pages \<Longrightarrow>
     map pageNumber pages = ns \<and>
     map (\<lambda>p. page_text_of pdf (pageNumber p)) pages = map (\<lambda>p. Some (pageText p)) pages"
  by (induction ns arbitrary: pages) (auto simp: page_text_of_simps split: sum.splits)

lemma read_pages_Inr_readable:
  "read_pages pdf ns = Inr pages \<Longrightarrow> list_all (\<lambda>i. page_text_of pdf i \<noteq> None) ns"
  by (induction ns arbitrary: pages) (auto simp: page_text_of_simps split: sum.splits)

lemma read_pages_Inl_unreadable:
  "read_pages pdf ns = Inl e \<Longrightarrow> \<not> list_all (\<lambda>i. page_text_of pdf i \<noteq> None) ns"
  by (induction ns) (auto simp: page_text_of_simps split: sum.splits)

lemma extractPdfText_try_readable:
  "pdf_readable getDocument file = (\<exists>r. extractPdfText_try getDocument file = Inr r)"
proof (cases "extractPdfText_try getDocument file")
  case (Inl e)
  then show ?thesis
    by (auto simp: extractPdfText_try_def pdf_readable_def Let_def
          dest: read_pages_Inl_unreadable split: sum.splits)
next
  case (Inr r)
  then show ?thesis
    by (auto simp: extractPdfText_try_def pdf_readable_def Let_def
          dest: read_pages_Inr_readable split: sum.splits)
qed

lemma extractPdfText_try_pages:
  assumes "extractPdfText_try getDocument file = Inr r"
  shows "\<exists>data pdf. arrayBuffer file = Inr data \<and> getDocument data = Inr pdf \<and>
           result_numPages r = numPages pdf \<and>
           map pageNumber (result_pages r) = [1..<Suc (numPages pdf)] \<and>
           map (\<lambda>p. page_text_of pdf (pageNumber p)) (result_pages r) =
             map (\<lambda>p. Some (pageText p)) (result_pages r) \<and>
           result_text r = js_join '' '' (map pageText (result_pages r))"
  using assms
  by (auto simp: extractPdfText_try_def Let_def dest!: read_pages_Inr split: sum.splits)

text \<open>
  C3. Whenever extraction fails (\<open>\<not> pdf_readable\<close>), \<open>extractPdfText\<close> logs the
  exception that ended the \<open>try\<close> under the label of the source and throws an
  \<open>Error\<close> with the message \<open>Failed to extract text from PDF\<close>: no result, partial or
  not, is returned. Whenever it succeeds, nothing is logged, and the result has one
  entry per page, numbered \<open>1 .. numPages\<close> in this order, each with the text of its
  page, and its \<open>text\<close> is these page texts joined by a space.
\<close>

theorem extractPdfText_outcome:
  "(\<not> pdf_readable getDocument file \<longrightarrow>
      (\<exists>e. extractPdfText_try getDocument file = Inl e \<and>
           extractPdfText getDocument file console =
             (console @ [(''Error extracting text from PDF:'', e)],
              Inl (Exn ''Error'' ''Failed to extract text from PDF'')))) \<and>
   (pdf_readable getDocument file \<longrightarrow>
      (\<exists>r data pdf.
           extractPdfText getDocument file console = (console, Inr r) \<and>
           arrayBuffer file = Inr data \<and> getDocument data = Inr pdf \<and>
           result_numPages r = numPages pdf \<and>
           map pageNumber (result_pages r) = [1..<Suc (numPages pdf)] \<and>
           map (\<lambda>p. page_text_of pdf (pageNumber p)) (result_pages r) =
             map (\<lambda>p. Some (pageText p)) (result_pages r) \<and>
           result_text r = js_join '' '' (map pageText (result_pages r))))"
proof (intro conjI impI)
  assume "\<not> pdf_readable getDocument file"
  then obtain e where "extractPdfText_try getDocument file = Inl e"
    unfolding extractPdfText_try_readable by (cases "extractPdfText_try getDocument file") auto
  then show "\<exists>e. extractPdfText_try getDocument file = Inl e \<and>
           extractPdfText getDocument file console =
             (console @ [(''Error extracting text from PDF:'', e)],
              Inl (Exn ''Error'' ''Failed to extract text from PDF''))"
    by (simp add: extractPdfText_def)
next
  assume "pdf_readable getDocument file"
  then obtain r where r: "extractPdfText_try getDocument file = Inr r"
    unfolding extractPdfText_try_readable by blast
  from extractPdfText_try_pages[OF r] r
  show "\<exists>r data pdf.
           extractPdfText getDocument file console = (console, Inr r) \<and>
           arrayBuffer file = Inr data \<and> getDocument data = Inr pdf \<and>
           result_numPages r = numPages pdf \<and>
           map pageNumber (result_pages r) = [1..<Suc (numPages pdf)] \<and>
           map (\<lambda>p. page_text_of pdf (pageNumber p)) (result_pages r) =
             map (\<lambda>p. Some (pageText p)) (result_pages r) \<and>
           result_text r = js_join '' '' (map pageText (result_pages r))"
    by (auto simp: extractPdfText_def)
qed

lemma sample_unreadable:
  "\<not> pdf_readable (\<lambda>data. Inl (Exn ''InvalidPDFException'' ''Invalid PDF structure.''))
       \<lparr>arrayBuffer = Inr [37, 80, 68, 70]\<rparr>"
  by (simp add: pdf_readable_def)

lemma sample_readable:
  "extractPdfText_try
     (\<lambda>data. Inr \<lparr>numPages = 2,
                  getPage = (\<lambda>i. Inr \<lparr>getTextContent =
                     Inr (if i = 1 then [''Hello'', ''world''] else [''Bye''])\<rparr>),
                  getMetadata = Inl (Exn ''Error'' ''no metadata'')\<rparr>)
     \<lparr>arrayBuffer = Inr [37, 80, 68, 70]\<rparr> =
   Inr \<lparr>result_text = ''Hello world Bye'',
        result_pages = [\<lparr>pageNumber = 1, pageText = ''Hello world''\<rparr>,
                        \<lparr>pageNumber = 2, pageText = ''Bye''\<rparr>],
        result_metadata = [], result_numPages = 2\<rparr>"
  by (simp add: extractPdfText_try_def upt_rec)

theorem extractPdfText_outcome_witness:
  "extractPdfText (\<lambda>data. Inl (Exn ''InvalidPDFException'' ''Invalid PDF structure.''))
     \<lparr>arrayBuffer = Inr [37, 80, 68, 70]\<rparr> [] =
     ([(''Error extracting text from PDF:'',
        Exn ''InvalidPDFException'' ''Invalid PDF structure.'')],
      Inl (Exn ''Error'' ''Failed to extract text from PDF'')) \<and>
   extractPdfText
     (\<lambda>data. Inr \<lparr>numPages = 2,
                  getPage = (\<lambda>i. Inr \<lparr>getTextContent =
                     Inr (if i = 1 then [''Hello'', ''world''] else [''Bye''])\<rparr>),
                  getMetadata = Inl (Exn ''Error'' ''no metadata'')\<rparr>)
     \<lparr>arrayBuffer = Inr [37, 80, 68, 70]\<rparr> [] =
     ([], Inr \<lparr>result_text = ''Hello world Bye'',
        result_pages = [\<lparr>pageNumber = 1, pageText = ''Hello world''\<rparr>,
                        \<lparr>pageNumber = 2, pageText = ''Bye''\<rparr>],
        result_metadata = [], result_numPages = 2\<rparr>)"
  using extractPdfText_outcome
    [of "\<lambda>data. Inl (Exn ''InvalidPDFException'' ''Invalid PDF structure.'')"
        "\<lparr>arrayBuffer = Inr [37, 80, 68, 70]\<rparr>" "[]"]
    sample_unreadable sample_readable
  by (auto simp: extractPdfText_try_def extractPdfText_def)

section \<open>The uploader (components/Documents/DocumentUploader.jsx)\<close>

subsection \<open>Files of other types\<close>

lemma uploadPromises_types:
  "list_all (\<lambda>d. doc_type d \<in> set allowedFileTypes)
     (uploadPromises env (filter (\<lambda>file. file_type file \<in> set allowedFileTypes) files))"
proof -
  have "list_all (\<lambda>d. doc_type d \<in> set allowedFileTypes)
          (map (\<lambda>(i, file). newDocument (env i) file) (enumerate n fs))"
    if "list_all (\<lambda>file. file_type file \<in> set allowedFileTypes) fs" for n fs
    using that by (induction fs arbitrary: n) (auto simp: newDocument_def)
  moreover have "list_all (\<lambda>file. file_type file \<in> set allowedFileTypes)
      (filter (\<lambda>file. file_type file \<in> set allowedFileTypes) files)"
    by (simp add: list_all_iff)
  ultimately show ?thesis
    unfolding uploadPromises_def by blast
qed

text \<open>The filter of \<open>handleFiles\<close> is \<open>validateFileType\<close> with its default list.\<close>

lemma validateFileType_default:
  "validateFileType file allowedFileTypes =
     (file_type file = ''application/pdf'' \<or>
      file_type file =
        ''application/vnd.openxmlformats-officedocument.wordprocessingml.document'')"
  by (simp add: validateFileType_def allowedFileTypes_def)

lemma handleFiles_documents:
  "\<exists>new. documents (handleFiles env files st) = documents st @ new \<and>
         list_all (\<lambda>d. doc_type d \<in> set allowedFileTypes) new"
proof (cases "filter (\<lambda>file. file_type file \<in> set allowedFileTypes) files")
  case Nil
  then show ?thesis by (simp add: handleFiles_def handleFiles_start_def)
next
  case (Cons f fs)
  then have "documents (handleFiles env files st) =
      documents st @ uploadPromises env (filter (\<lambda>file. file_type file \<in> set allowedFileTypes) files)"
    by (simp add: handleFiles_def handleFiles_start_def handleFiles_then_def)
  with uploadPromises_types[of env files] show ?thesis by blast
qed

text \<open>
  C4. If no file passed to \<open>handleFiles\<close> is a PDF or a DOCX by its MIME type, the call
  sets the alert \<open>Only PDF and Word documents are supported.\<close>, leaves no upload pending
  and leaves the document list as it was; the rest of the state is as before but for
  the alert and \<open>isUploading\<close>, which is false. Whatever the files are, every document
  an upload adds has an allowed MIME type.
\<close>

theorem handleFiles_rejects_other_types:
  "(list_all (\<lambda>file. file_type file \<noteq> ''application/pdf'' \<and>
        file_type file \<noteq>
          ''application/vnd.openxmlformats-officedocument.wordprocessingml.document'') files
      \<longrightarrow> handleFiles_start files st =
            (st\<lparr>uploadError := Some ''Only PDF and Word documents are supported.'',
                isUploading := False\<rparr>, []) \<and>
          handleFiles env files st =
            st\<lparr>uploadError := Some ''Only PDF and Word documents are supported.'',
               isUploading := False\<rparr> \<and>
          documents (handleFiles env files st) = documents st) \<and>
   (\<exists>new. documents (handleFiles env files st) = documents st @ new \<and>
          list_all (\<lambda>d. doc_type d \<in> set allowedFileTypes) new)"
proof (intro conjI impI)
  assume other: "list_all (\<lambda>file. file_type file \<noteq> ''application/pdf'' \<and>
        file_type file \<noteq>
          ''application/vnd.openxmlformats-officedocument.wordprocessingml.document'') files"
  then have none: "filter (\<lambda>file. file_type file \<in> set allowedFileTypes) files = []"
    by (induction files) (auto simp: allowedFileTypes_def)
  then show start: "handleFiles_start files st =
            (st\<lparr>uploadError := Some ''Only PDF and Word documents are supported.'',
                isUploading := False\<rparr>, [])"
    by (simp add: handleFiles_start_def)
  then show all: "handleFiles env files st =
            st\<lparr>uploadError := Some ''Only PDF and Word documents are supported.'',
               isUploading := False\<rparr>"
    by (simp add: handleFiles_def)
  then show "documents (handleFiles env files st) = documents st" by simp
next
  show "\<exists>new. documents (handleFiles env files st) = documents st @ new \<and>
          list_all (\<lambda>d. doc_type d \<in> set allowedFileTypes) new"
    by (rule handleFiles_documents)
qed

theorem handleFiles_rejects_other_types_witness:
  "handleFiles
     (\<lambda>i. \<lparr>date_now = 1000, random_base36 = ''k3x9q0a1z'', date_iso = ''2024'',
            random_pages = 7\<rparr>)
     [\<lparr>file_name = ''notes.txt'', file_type = ''text/plain'', file_size = 12\<rparr>]
     \<lparr>documents = [], uploadError = None, isUploading = False\<rparr> =
   \<lparr>documents = [], uploadError = Some ''Only PDF and Word documents are supported.'',
    isUploading = False\<rparr>"
  using handleFiles_rejects_other_types
    [of "[\<lparr>file_name = ''notes.txt'', file_type = ''text/plain'', file_size = 12\<rparr>]"
        "\<lparr>documents = [], uploadError = None, isUploading = False\<rparr>"
        "\<lambda>i. \<lparr>date_now = 1000, random_base36 = ''k3x9q0a1z'', date_iso = ''2024'',
            random_pages = 7\<rparr>"]
  by simp

subsection \<open>The documents an upload creates\<close>

lemma uploadPromises_nth:
  "i < length fs \<Longrightarrow> uploadPromises env fs ! i = newDocument (env i) (fs ! i)"
  by (simp add: uploadPromises_def nth_enumerate_eq)

text \<open>
  C8. The document created for the \<open>i\<close>-th valid file of an upload has the file's name,
  MIME type and size, the timestamp read at its creation and the placeholder content;
  its page count is a number when the file is a PDF and \<open>null\<close> when it is a DOCX.
\<close>

theorem uploaded_document_fields:
  assumes "validFiles = filter (\<lambda>file. file_type file \<in> set allowedFileTypes) files"
    and "i < length validFiles"
    and "file = validFiles ! i" and "d = uploadPromises env validFiles ! i"
  shows "doc_name d = file_name file \<and> doc_type d = file_type file \<and>
         doc_size d = file_size file \<and> doc_uploadDate d = date_iso (env i) \<and>
         doc_content d = placeholder_content \<and>
         (doc_pages d \<noteq> None) = (file_type file = ''application/pdf'') \<and>
         (doc_pages d = None) =
           (file_type file =
              ''application/vnd.openxmlformats-officedocument.wordprocessingml.document'')"
proof -
  from assms(2,3) have "file \<in> set validFiles"
    by simp
  then have "file \<in> set (filter (\<lambda>file. file_type file \<in> set allowedFileTypes) files)"
    unfolding assms(1) .
  then have allowed: "file_type file = ''application/pdf'' \<or>
      file_type file =
        ''application/vnd.openxmlformats-officedocument.wordprocessingml.document''"
    by (simp add: allowedFileTypes_def)
  from assms(2,3,4) have d: "d = newDocument (env i) file"
    by (simp add: uploadPromises_nth)
  from allowed show ?thesis unfolding d by (auto simp: newDocument_def)
qed

theorem uploaded_document_fields_witness:
  "doc_name (uploadPromises
       (\<lambda>i. \<lparr>date_now = 1000, random_base36 = ''k3x9q0a1z'', date_iso = ''2024'',
              random_pages = 7\<rparr>)
       [\<lparr>file_name = ''a.pdf'', file_type = ''application/pdf'', file_size = 10\<rparr>] ! 0) =
     ''a.pdf'' \<and>
   doc_pages (uploadPromises
       (\<lambda>i. \<lparr>date_now = 1000, random_base36 = ''k3x9q0a1z'', date_iso = ''2024'',
              random_pages = 7\<rparr>)
       [\<lparr>file_name = ''a.pdf'', file_type = ''application/pdf'', file_size = 10\<rparr>] ! 0) \<noteq>
     None"
  using uploaded_document_fields
    [of "[\<lparr>file_name = ''a.pdf'', file_type = ''application/pdf'', file_size = 10\<rparr>]"
        "[\<lparr>file_name = ''a.pdf'', file_type = ''application/pdf'', file_size = 10\<rparr>,
          \<lparr>file_name = ''notes.txt'', file_type = ''text/plain'', file_size = 12\<rparr>]"
        0
        "\<lparr>file_name = ''a.pdf'', file_type = ''application/pdf'', file_size = 10\<rparr>"
        "uploadPromises
           (\<lambda>i. \<lparr>date_now = 1000, random_base36 = ''k3x9q0a1z'', date_iso = ''2024'',
              random_pages = 7\<rparr>)
           [\<lparr>file_name = ''a.pdf'', file_type = ''application/pdf'', file_size = 10\<rparr>] ! 0"
        "\<lambda>i. \<lparr>date_now = 1000, random_base36 = ''k3x9q0a1z'', date_iso = ''2024'',
              random_pages = 7\<rparr>"]
  by (simp add: allowedFileTypes_def)

section \<open>The chat page (pages/Chat.jsx)\<close>

subsection \<open>Sending a message\<close>

lemma js_trim_empty: "(js_trim s = []) = list_all js_whitespace s"
proof -
  have "list_all js_whitespace (dropWhile js_whitespace s) = list_all js_whitespace s"
    by (induction s) auto
  then show ?thesis
    by (simp add: js_trim_def list_all_iff)
qed

text \<open>
  C5. For a text that is not empty and not only white space, \<open>handleSendMessage\<close>
  appends the new user message, with the text as it was given, at the end of the
  messages; the messages before are the same, at the same positions. For an empty or
  white-space-only text the state is unchanged.
\<close>

theorem handleSendMessage_appends:
  "(\<not> list_all js_whitespace text \<longrightarrow>
      messages (handleSendMessage activeDocument text now date st) =
        messages st @
          [\<lparr>msg_id = NumId now, msg_sender = ''user'', msg_text = text,
            msg_timestamp = date, msg_source = None\<rparr>] \<and>
      take (length (messages st)) (messages (handleSendMessage activeDocument text now date st)) =
        messages st) \<and>
   (list_all js_whitespace text \<longrightarrow> handleSendMessage activeDocument text now date st = st)"
proof -
  have "text = [] \<or> js_trim text = [] \<longleftrightarrow> list_all js_whitespace text"
    by (auto simp: js_trim_empty)
  then show ?thesis
    by (auto simp: handleSendMessage_def Let_def)
qed

lemma not_blank_hello: "\<not> list_all js_whitespace '' hello ''"
  by (simp add: js_whitespace_def)

theorem handleSendMessage_appends_witness:
  "messages (handleSendMessage None '' hello '' 1000 1001 (initial_chat 5)) =
     messages (initial_chat 5) @
       [\<lparr>msg_id = NumId 1000, msg_sender = ''user'', msg_text = '' hello '',
         msg_timestamp = 1001, msg_source = None\<rparr>] \<and>
   handleSendMessage None ''  '' 1000 1001 (initial_chat 5) = initial_chat 5"
  using handleSendMessage_appends [of "'' hello ''" None 1000 1001 "initial_chat 5"]
    handleSendMessage_appends [of "''  ''" None 1000 1001 "initial_chat 5"]
    not_blank_hello
  by (simp add: js_whitespace_def)

subsection \<open>The reply does not depend on document contents\<close>

lemma botResponse_same_but_content:
  "rel_option same_but_content a a' \<Longrightarrow>
     botResponse a now date random_page = botResponse a' now date random_page"
  by (cases a; cases a') (auto simp: botResponse_def same_but_content_def)

text \<open>
  C7. Take two sessions whose documents differ in their content strings at most: the
  active documents are related by \<open>same_but_content\<close> (or both absent), and the chat
  states are the same. Sending the same message in both and letting a reply timer fire
  gives the same messages in both; with no earlier reply pending, the message added
  last is the reply to the message sent. The text of the reply is the same in both
  sessions, whatever the clock and the random page are, and it is the fixed sentence
  around the active document's name.
\<close>

theorem reply_independent_of_content:
  assumes "rel_option same_but_content a a'"
  shows "messages (timer_fires now' date' random_page (handleSendMessage a text now date st)) =
         messages (timer_fires now' date' random_page (handleSendMessage a' text now date st)) \<and>
         (timers st = [] \<and> \<not> list_all js_whitespace text \<longrightarrow>
            messages (timer_fires now' date' random_page (handleSendMessage a text now date st)) =
              messages st @
                [\<lparr>msg_id = NumId now, msg_sender = ''user'', msg_text = text,
                  msg_timestamp = date, msg_source = None\<rparr>,
                 botResponse a now' date' random_page]) \<and>
         msg_text (botResponse a now' date' random_page) =
           msg_text (botResponse a' now'' date'' random_page') \<and>
         msg_text (botResponse a now' date' random_page) =
           ''I'm analyzing your question about '' @
           (case a of Some d \<Rightarrow> doc_name d | None \<Rightarrow> ''your documents'') @
           ''. In a real implementation, this would be answered by the backend using RAG.''"
proof -
  note same = botResponse_same_but_content[OF assms, of now' date' random_page]
  have blank: "text = [] \<or> js_trim text = [] \<longleftrightarrow> list_all js_whitespace text"
    by (auto simp: js_trim_empty)
  have "messages (timer_fires now' date' random_page (handleSendMessage a text now date st)) =
        messages (timer_fires now' date' random_page (handleSendMessage a' text now date st))"
    using same
    by (cases "timers st") (auto simp: handleSendMessage_def timer_fires_def Let_def)
  moreover have "messages (timer_fires now' date' random_page (handleSendMessage a text now date st)) =
      messages st @
        [\<lparr>msg_id = NumId now, msg_sender = ''user'', msg_text = text,
          msg_timestamp = date, msg_source = None\<rparr>,
         botResponse a now' date' random_page]"
    if "timers st = []" "\<not> list_all js_whitespace text"
    using that blank
    by (auto simp: handleSendMessage_def timer_fires_def Let_def)
  moreover have "msg_text (botResponse a now' date' random_page) =
      msg_text (botResponse a' now'' date'' random_page')"
    using assms by (cases a; cases a') (auto simp: botResponse_def same_but_content_def)
  ultimately show ?thesis by (simp add: botResponse_def)
qed

theorem reply_independent_of_content_witness:
  "msg_text (botResponse
     (Some \<lparr>doc_id = StrId ''1000k3x9q0a1z'', doc_name = ''a.pdf'',
            doc_type = ''application/pdf'', doc_size = 10, doc_uploadDate = ''2024'',
            doc_content = ''one content'', doc_pages = Some 12\<rparr>) 2000 2001 3) =
   msg_text (botResponse
     (Some \<lparr>doc_id = StrId ''1000k3x9q0a1z'', doc_name = ''a.pdf'',
            doc_type = ''application/pdf'', doc_size = 10, doc_uploadDate = ''2024'',
            doc_content = ''another content'', doc_pages = Some 12\<rparr>) 3000 3001 4) \<and>
   msg_text (botResponse
     (Some \<lparr>doc_id = StrId ''1000k3x9q0a1z'', doc_name = ''a.pdf'',
            doc_type = ''application/pdf'', doc_size = 10, doc_uploadDate = ''2024'',
            doc_content = ''one content'', doc_pages = Some 12\<rparr>) 2000 2001 3) =
   ''I'm analyzing your question about a.pdf. In a real implementation, this would be answered by the backend using RAG.''"
  using reply_independent_of_content
    [of "Some \<lparr>doc_id = StrId ''1000k3x9q0a1z'', doc_name = ''a.pdf'',
            doc_type = ''application/pdf'', doc_size = 10, doc_uploadDate = ''2024'',
            doc_content = ''one content'', doc_pages = Some 12\<rparr>"
        "Some \<lparr>doc_id = StrId ''1000k3x9q0a1z'', doc_name = ''a.pdf'',
            doc_type = ''application/pdf'', doc_size = 10, doc_uploadDate = ''2024'',
            doc_content = ''another content'', doc_pages = Some 12\<rparr>"
        2000 2001 3 "''hello''" 1000 1001 "initial_chat 5" 3000 3001 4]
  by (simp add: same_but_content_def botResponse_def)

subsection \<open>Identifiers\<close>

text \<open>
  C2. The claim: any two entities created in a session have distinct identifiers, two
  messages sent in the same millisecond included. A message's identifier is the clock
  reading \<^verbatim>\<open>Date.now()\<close> and nothing else, so two messages sent at the same reading
  get the same identifier: below, the identifiers of the messages after two sends at
  the reading 1700000000000.
\<close>

theorem same_millisecond_same_id:
  "map msg_id
     (messages (handleSendMessage None ''second'' 1700000000000 1700000000000
        (handleSendMessage None ''first'' 1700000000000 1700000000000 (initial_chat 5)))) =
   [NumId 1, NumId 1700000000000, NumId 1700000000000]"
  by (simp add: handleSendMessage_def initial_chat_def js_trim_def js_whitespace_def)

end
